theory Spec2Isabelle
  imports Main
begin

section \<open>The version indexer of gypsum-actions (src/index-project.js)\<close>

text \<open>
  The script is one sequential procedure of remote calls. The embedding makes the outside
  world a record of response functions (\<open>world\<close>), the helpers of \<^verbatim>\<open>internal.js\<close>
  and \<^verbatim>\<open>utils.js\<close>, whose sources are not part of the files at hand, parameters, and the
  run a function that returns the exception it ends with (if any) together with the list
  of the requests that change something outside the process, in the order the script
  issues them.

  The run is sequential, and every remote call answers as a function of its request:
  a promise that rejects is observed where the script awaits it (\<^verbatim>\<open>await\<close>,
  \<^verbatim>\<open>Promise.all\<close>). For the calls that the script awaits at once this is what happens.
  The writes (lines 112, 138, 160, 182) and the fetches of the contents (line 126) are
  started and awaited later (lines 200 and 137): when such a promise rejects before the
  script awaits it, Node ends the process there, with exit code 1 and without the comment,
  and which of several rejections \<^verbatim>\<open>Promise.all\<close> reports depends on their order in time.
  The sequential reading is exact on the runs in which no write and no fetch of a content
  rejects (\<open>no_rejection\<close> below); where a property of the comment or of the exit code
  needs it, it is stated for those runs. \<^verbatim>\<open>console.error\<close> is left out.

  JavaScript values are modelled by \<open>jsval\<close>. Numbers are integers (the script's numbers
  are millisecond timestamps), with \<open>JNaN\<close> for the one non-integer that the script's
  own arithmetic can produce. The parameter file's \<open>project\<close> and \<open>version\<close> are
  strings.
\<close>

subsection \<open>JavaScript values and exceptions\<close>

datatype jsval =
    JUndefined
  | JNull
  | JBool bool
  | JNum int
  | JNaN
  | JStr string
  | JArr "jsval list"
  | JObj "(string \<times> jsval) list"

text \<open>An exception object: the script reads its \<open>message\<close> and its \<open>statusCode\<close>.\<close>

record exn =
  message :: string
  statusCode :: "nat option"

definition Error :: "string \<Rightarrow> exn" where
  "Error msg = \<lparr>message = msg, statusCode = None\<rparr>"

text \<open>
  \<open>x.name\<close>: a TypeError on null and undefined, undefined where the property is missing.
  The exception object of a TypeError, with its message, is the engine's: it is taken from
  the world where the script throws it (\<open>typeError\<close> below).
\<close>

datatype type_error = TypeError

fun get_prop :: "jsval \<Rightarrow> string \<Rightarrow> type_error + jsval" where
  "get_prop JUndefined name = Inl TypeError"
| "get_prop JNull name = Inl TypeError"
| "get_prop (JObj kvs) name = Inr (case map_of kvs name of None \<Rightarrow> JUndefined | Some v \<Rightarrow> v)"
| "get_prop v name = Inr JUndefined"

text \<open>The truth value of \<open>if (x)\<close> and \<open>!x\<close>.\<close>

fun truthy :: "jsval \<Rightarrow> bool" where
  "truthy JUndefined = False"
| "truthy JNull = False"
| "truthy (JBool b) = b"
| "truthy (JNum n) = (n \<noteq> 0)"
| "truthy JNaN = False"
| "truthy (JStr s) = (s \<noteq> [])"
| "truthy v = True"

text \<open>\<open>s.endsWith(suffix)\<close>\<close>

definition endsWith :: "string \<Rightarrow> string \<Rightarrow> bool" where
  "endsWith s suf = (length suf \<le> length s \<and> drop (length s - length suf) s = suf)"

subsection \<open>The helpers that are not among the source files\<close>

text \<open>
  \<^verbatim>\<open>internal.js\<close> builds the storage keys; \<^verbatim>\<open>utils.formatLatest\<close> builds the content of
  a latest pointer. They are parameters of the model.
\<close>

record internal =
  lock :: "string \<Rightarrow> string \<Rightarrow> string"
  expiry :: "string \<Rightarrow> string \<Rightarrow> string"
  versionMetadata :: "string \<Rightarrow> string \<Rightarrow> string"
  aggregated :: "string \<Rightarrow> string \<Rightarrow> string"
  permissions :: "string \<Rightarrow> string"
  latestPersistent :: "string \<Rightarrow> string"
  latestAll :: "string \<Rightarrow> string"
  formatLatest :: "string \<Rightarrow> int \<Rightarrow> jsval"

subsection \<open>The outside world\<close>

text \<open>The parsed parameter file (the issue body), as lines 58 to 60 and later reads see it.\<close>

record body =
  project :: string
  version :: string
  timestamp :: jsval
  overwrite_permissions :: jsval
  body_permissions :: jsval

record list_params =
  Bucket :: string
  Prefix :: string
  ContinuationToken :: "string option"

record listing =
  Contents :: "string list"
  IsTruncated :: bool
  NextContinuationToken :: "string option"

record response =
  ok :: bool
  json :: "exn + jsval"

text \<open>
  What the run sees of the world: every remote call is a function from the request to
  its outcome, \<open>Inl e\<close> or \<open>Some e\<close> when the call throws \<open>e\<close>. \<open>getJson\<close> is
  \<^verbatim>\<open>utils.getJson\<close> (its result \<open>JNull\<close> is JavaScript's null, which the script takes
  for "no such object"), \<open>putJson\<close> is the outcome of the promise that \<^verbatim>\<open>utils.putJson\<close>
  returns, \<open>toISOString\<close> is \<^verbatim>\<open>(new Date(x)).toISOString()\<close>, which throws a RangeError
  on an invalid date, \<open>toString\<close> is the string conversion that \<^verbatim>\<open>+\<close> applies, and
  \<open>typeError x name\<close> is the TypeError that the engine throws when the property
  \<open>name\<close> of \<open>x\<close>, null or undefined, is read.
\<close>

record world =
  readParams :: "string \<Rightarrow> exn + body"
  headObject :: "string \<Rightarrow> string \<Rightarrow> exn option"
  getJson :: "string \<Rightarrow> string \<Rightarrow> exn + jsval"
  listObjectsV2 :: "list_params \<Rightarrow> exn + listing"
  putJson :: "string \<Rightarrow> string \<Rightarrow> jsval \<Rightarrow> exn option"
  deleteObject :: "string \<Rightarrow> string \<Rightarrow> exn option"
  postIssue :: "string \<Rightarrow> string \<Rightarrow> jsval \<Rightarrow> exn + response"
  closeIssue :: "string \<Rightarrow> string \<Rightarrow> string \<Rightarrow> exn option"
  postComment :: "string \<Rightarrow> string \<Rightarrow> string \<Rightarrow> string \<Rightarrow> exn option"
  now :: int
  toISOString :: "jsval \<Rightarrow> exn + string"
  toString :: "jsval \<Rightarrow> string"
  typeError :: "jsval \<Rightarrow> string \<Rightarrow> exn"

text \<open>
  The requests that change something outside the process, as the script issues them.
  \<open>PutJson bucket key value\<close> is a call of \<^verbatim>\<open>utils.putJson\<close> (the write starts when
  it is pushed on \<open>writes\<close>), \<open>PostIssue repo token payload\<close> the creation of a ticket,
  \<open>PostComment repo issue token text\<close> the comment of the catch handler.
\<close>

datatype event =
    PutJson string string jsval
  | DeleteObject string string
  | PostIssue string string jsval
  | CloseIssue string string string
  | PostComment string string string string

text \<open>A step ends with an exception or a value, and with the requests issued so far.\<close>

type_synonym 'a step = "(exn + 'a) \<times> event list"

subsection \<open>The steps of the try block\<close>

text \<open>Lines 63 to 72: the lock must exist.\<close>

definition lock_check :: "world \<Rightarrow> string \<Rightarrow> string \<Rightarrow> exn + unit" where
  "lock_check w bucket_name lockpath =
     (case headObject w bucket_name lockpath of
        Some e \<Rightarrow> Inl (Error ''failed to acquire the lock file for this project version'')
      | None \<Rightarrow> Inr ())"

text \<open>\<open>index_time + x\<close> for the number \<open>index_time\<close>.\<close>

fun js_plus :: "world \<Rightarrow> int \<Rightarrow> jsval \<Rightarrow> jsval" where
  "js_plus w i (JNum n) = JNum (i + n)"
| "js_plus w i JNull = JNum i"
| "js_plus w i (JBool b) = JNum (i + (if b then 1 else 0))"
| "js_plus w i JUndefined = JNaN"
| "js_plus w i JNaN = JNaN"
| "js_plus w i v = JStr (toString w (JNum i) @ toString w v)"

definition purge_issue :: "string \<Rightarrow> string \<Rightarrow> jsval \<Rightarrow> jsval" where
  "purge_issue proj vers expired =
     JObj [(''title'', JStr ''purge project''),
           (''body'', JObj [(''project'', JStr proj), (''version'', JStr vers),
                            (''mode'', JStr ''expiry''), (''delete_after'', expired)])]"

text \<open>Lines 74 to 113: the version's metadata and, with an expiry file, the expiry job.
  The result is \<open>has_expiry\<close>.\<close>

definition version_meta_step ::
  "world \<Rightarrow> internal \<Rightarrow> string \<Rightarrow> string \<Rightarrow> string \<Rightarrow> body \<Rightarrow> int \<Rightarrow> event list \<Rightarrow> bool step" where
  "version_meta_step w hp bucket_name repo_name token bdy index_time tr =
     (case toISOString w (timestamp bdy) of
        Inl e \<Rightarrow> (Inl e, tr)
      | Inr upload_time \<Rightarrow>
     (case toISOString w (JNum index_time) of
        Inl e \<Rightarrow> (Inl e, tr)
      | Inr index_iso \<Rightarrow>
     (let version_meta = [(''upload_time'', JStr upload_time), (''index_time'', JStr index_iso)] in
      case getJson w bucket_name (expiry hp (project bdy) (version bdy)) of
        Inl e \<Rightarrow> (Inl e, tr)
      | Inr exp_info \<Rightarrow>
          if exp_info \<noteq> JNull then
            (case get_prop exp_info ''expires_in'' of
               Inl TypeError \<Rightarrow> (Inl (typeError w exp_info ''expires_in''), tr)
             | Inr expires_in \<Rightarrow>
            (let expired = js_plus w index_time expires_in in
             case toISOString w expired of
               Inl e \<Rightarrow> (Inl e, tr)
             | Inr expiry_time \<Rightarrow>
            (let version_meta = version_meta @ [(''expiry_time'', JStr expiry_time)];
                 request = purge_issue (project bdy) (version bdy) expired;
                 tr = tr @ [PostIssue repo_name token request] in
             case postIssue w repo_name token request of
               Inl e \<Rightarrow> (Inl e, tr)
             | Inr res \<Rightarrow>
                 if \<not> ok res then (Inl (Error ''failed to post an expiry job''), tr)
                 else
                   (case json res of
                      Inl e \<Rightarrow> (Inl e, tr)
                    | Inr payload \<Rightarrow>
                   (case get_prop payload ''number'' of
                      Inl TypeError \<Rightarrow> (Inl (typeError w payload ''number''), tr)
                    | Inr number \<Rightarrow>
                        (Inr True,
                         tr @ [PutJson bucket_name
                                 (versionMetadata hp (project bdy) (version bdy))
                                 (JObj (version_meta @ [(''expiry_job_id'', number)]))]))))))
          else
            (Inr False,
             tr @ [PutJson bucket_name (versionMetadata hp (project bdy) (version bdy))
                     (JObj version_meta)]))))"

text \<open>
  Lines 120 to 135: the listing loop. \<open>aggregated_keys\<close> collects the keys whose contents
  have been requested. The loop ends when a page is not truncated; a listing that is
  truncated for ever gives \<open>None\<close>.
\<close>

partial_function (option) list_loop ::
  "world \<Rightarrow> list_params \<Rightarrow> string list \<Rightarrow> (exn + string list) option" where
  "list_loop w params aggregated_keys =
     (case listObjectsV2 w params of
        Inl e \<Rightarrow> Some (Inl e)
      | Inr info \<Rightarrow>
          (let aggregated_keys = aggregated_keys @ filter (\<lambda>k. endsWith k ''.json'') (Contents info) in
           if IsTruncated info
           then list_loop w (params\<lparr>ContinuationToken := NextContinuationToken info\<rparr>) aggregated_keys
           else Some (Inr aggregated_keys)))"

text \<open>
  Line 137: \<open>Promise.all\<close> over the requested contents. When one of them rejects, the
  sequential reading reports the first rejection in the order of the list, at this line;
  no property below depends on which one is reported.
\<close>

fun resolve_all :: "world \<Rightarrow> string \<Rightarrow> string list \<Rightarrow> exn + jsval list" where
  "resolve_all w bucket_name [] = Inr []"
| "resolve_all w bucket_name (k # ks) =
     (case getJson w bucket_name k of
        Inl e \<Rightarrow> Inl e
      | Inr v \<Rightarrow> (case resolve_all w bucket_name ks of Inl e \<Rightarrow> Inl e | Inr vs \<Rightarrow> Inr (v # vs)))"

text \<open>Lines 115 to 139.\<close>

definition aggregation_step ::
  "world \<Rightarrow> internal \<Rightarrow> string \<Rightarrow> body \<Rightarrow> event list \<Rightarrow> (unit step) option" where
  "aggregation_step w hp bucket_name bdy tr =
     (case list_loop w \<lparr>Bucket = bucket_name,
                        Prefix = project bdy @ ''/'' @ version bdy @ ''/'',
                        ContinuationToken = None\<rparr> [] of
        None \<Rightarrow> None
      | Some (Inl e) \<Rightarrow> Some (Inl e, tr)
      | Some (Inr aggregated_keys) \<Rightarrow>
          (case resolve_all w bucket_name aggregated_keys of
             Inl e \<Rightarrow> Some (Inl e, tr)
           | Inr resolved \<Rightarrow>
               Some (Inr (),
                     tr @ [PutJson bucket_name (aggregated hp (project bdy) (version bdy))
                             (JArr resolved)])))"

text \<open>Lines 141 to 162.\<close>

definition permissions_step ::
  "world \<Rightarrow> internal \<Rightarrow> string \<Rightarrow> body \<Rightarrow> event list \<Rightarrow> unit step" where
  "permissions_step w hp bucket_name bdy tr =
     (let overwrite = truthy (overwrite_permissions bdy);
          permpath = permissions hp (project bdy) in
      case (if \<not> overwrite then
              (case headObject w bucket_name permpath of
                 None \<Rightarrow> Inr overwrite
               | Some e \<Rightarrow> if statusCode e = Some 404 then Inr True else Inl e)
            else Inr overwrite) of
        Inl e \<Rightarrow> (Inl e, tr)
      | Inr overwrite \<Rightarrow>
          (Inr (), if overwrite then tr @ [PutJson bucket_name permpath (body_permissions bdy)]
                   else tr))"

text \<open>Lines 166 to 184.\<close>

definition fill_latest ::
  "world \<Rightarrow> internal \<Rightarrow> string \<Rightarrow> string \<Rightarrow> string \<Rightarrow> int \<Rightarrow> event list \<Rightarrow> unit step" where
  "fill_latest w hp bucket_name l v i tr =
     (case getJson w bucket_name l of
        Inl e \<Rightarrow> (Inl e, tr)
      | Inr lat_info \<Rightarrow>
          (case (if lat_info = JNull \<or> lat_info = JUndefined then Inr True
                 else (case get_prop lat_info ''index_time'' of
                         Inr (JNum t) \<Rightarrow> Inr (t < i)
                       | Inr JNaN \<Rightarrow> Inr False
                       | _ \<Rightarrow> Inl (Error ''latest file should contain a 'index_time' number''))) of
             Inl e \<Rightarrow> (Inl e, tr)
           | Inr relatest \<Rightarrow>
               (Inr (), if relatest then tr @ [PutJson bucket_name l (formatLatest hp v i)]
                        else tr)))"

text \<open>Lines 189 to 194: the persistent pointer.\<close>

definition persistent_step ::
  "world \<Rightarrow> internal \<Rightarrow> string \<Rightarrow> body \<Rightarrow> int \<Rightarrow> bool \<Rightarrow> event list \<Rightarrow> unit step" where
  "persistent_step w hp bucket_name bdy index_time has_expiry tr =
     (let latestpath = latestPersistent hp (project bdy) in
      if has_expiry then fill_latest w hp bucket_name latestpath '''' (- 1) tr
      else fill_latest w hp bucket_name latestpath (version bdy) index_time tr)"

text \<open>Lines 164 to 198.\<close>

definition latest_step ::
  "world \<Rightarrow> internal \<Rightarrow> string \<Rightarrow> body \<Rightarrow> int \<Rightarrow> bool \<Rightarrow> event list \<Rightarrow> unit step" where
  "latest_step w hp bucket_name bdy index_time has_expiry tr =
     (case persistent_step w hp bucket_name bdy index_time has_expiry tr of
        (Inl e, tr) \<Rightarrow> (Inl e, tr)
      | (Inr u, tr) \<Rightarrow>
          fill_latest w hp bucket_name (latestAll hp (project bdy)) (version bdy) index_time tr)"

text \<open>
  Line 200: \<open>Promise.all(writes)\<close>. The writes are the \<open>PutJson\<close> requests issued so
  far. When one of them rejects, the sequential reading reports the first rejection in the
  order of the list, at this line; no property below depends on which one is reported.
\<close>

fun await_writes :: "world \<Rightarrow> event list \<Rightarrow> exn option" where
  "await_writes w [] = None"
| "await_writes w (PutJson b k v # evs) =
     (case putJson w b k v of Some e \<Rightarrow> Some e | None \<Rightarrow> await_writes w evs)"
| "await_writes w (ev # evs) = await_writes w evs"

text \<open>Lines 200 to 209: commit, unlock, close.\<close>

definition finish ::
  "world \<Rightarrow> string \<Rightarrow> string \<Rightarrow> string \<Rightarrow> string \<Rightarrow> string \<Rightarrow> event list \<Rightarrow> unit step" where
  "finish w bucket_name repo_name issue_number token lockpath tr =
     (case await_writes w tr of
        Some e \<Rightarrow> (Inl e, tr)
      | None \<Rightarrow>
          (let tr = tr @ [DeleteObject bucket_name lockpath] in
           case deleteObject w bucket_name lockpath of
             Some e \<Rightarrow> (Inl e, tr)
           | None \<Rightarrow>
               (let tr = tr @ [CloseIssue repo_name issue_number token] in
                case closeIssue w repo_name issue_number token of
                  Some e \<Rightarrow> (Inl e, tr)
                | None \<Rightarrow> (Inr (), tr))))"

text \<open>Lines 74 to 200, after the lock check: everything that schedules writes.\<close>

definition schedule ::
  "world \<Rightarrow> internal \<Rightarrow> string \<Rightarrow> string \<Rightarrow> string \<Rightarrow> body \<Rightarrow> (unit step) option" where
  "schedule w hp bucket_name repo_name token bdy =
     (let index_time = now w in
      case version_meta_step w hp bucket_name repo_name token bdy index_time [] of
        (Inl e, tr) \<Rightarrow> Some (Inl e, tr)
      | (Inr has_expiry, tr) \<Rightarrow>
     (case aggregation_step w hp bucket_name bdy tr of
        None \<Rightarrow> None
      | Some (Inl e, tr) \<Rightarrow> Some (Inl e, tr)
      | Some (Inr u, tr) \<Rightarrow>
     (case permissions_step w hp bucket_name bdy tr of
        (Inl e, tr) \<Rightarrow> Some (Inl e, tr)
      | (Inr u, tr) \<Rightarrow> Some (latest_step w hp bucket_name bdy index_time has_expiry tr))))"

text \<open>Lines 56 to 210: the try block. \<open>None\<close>: the listing loop does not end.\<close>

definition run_try ::
  "world \<Rightarrow> internal \<Rightarrow> string \<Rightarrow> string \<Rightarrow> string \<Rightarrow> string \<Rightarrow> string \<Rightarrow> (unit step) option" where
  "run_try w hp token bucket_name repo_name issue_number param_path =
     (case readParams w param_path of
        Inl e \<Rightarrow> Some (Inl e, [])
      | Inr bdy \<Rightarrow>
     (let lockpath = lock hp (project bdy) (version bdy) in
      case lock_check w bucket_name lockpath of
        Inl e \<Rightarrow> Some (Inl e, [])
      | Inr u \<Rightarrow>
     (case schedule w hp bucket_name repo_name token bdy of
        None \<Rightarrow> None
      | Some (Inl e, tr) \<Rightarrow> Some (Inl e, tr)
      | Some (Inr u, tr) \<Rightarrow>
          Some (finish w bucket_name repo_name issue_number token lockpath tr))))"

subsection \<open>The process\<close>

text \<open>The environment variables the script reads; \<open>None\<close> is an unset variable.\<close>

record process_env =
  R2_ACCOUNT_ID :: "string option"
  R2_ACCESS_KEY_ID :: "string option"
  R2_SECRET_ACCESS_KEY :: "string option"
  GH_BOT_TOKEN :: "string option"

text \<open>\<open>!process.env.X\<close>: unset or empty.\<close>

fun missing :: "string option \<Rightarrow> bool" where
  "missing None = True"
| "missing (Some s) = (s = [])"

text \<open>
  How the process ends: the value of \<open>process.exitCode\<close>, the exception that left the
  module uncaught (if any) and the requests issued.
\<close>

record outcome =
  exitCode :: nat
  uncaught :: "exn option"
  trace :: "event list"

text \<open>
  The whole module. \<open>argv\<close> is \<open>process.argv\<close>, with the interpreter and the script in
  front. \<open>process.exitCode\<close> is 1 from line 28 on and 0 only after line 224.
\<close>

definition main :: "process_env \<Rightarrow> string list \<Rightarrow> world \<Rightarrow> internal \<Rightarrow> outcome option" where
  "main env argv w hp =
     (if missing (R2_ACCOUNT_ID env) \<or> missing (R2_ACCESS_KEY_ID env)
          \<or> missing (R2_SECRET_ACCESS_KEY env)
      then Some \<lparr>exitCode = 1, uncaught = Some (Error ''missing R2 credentials''), trace = []\<rparr>
      else
        (case GH_BOT_TOKEN env of
           None \<Rightarrow>
             Some \<lparr>exitCode = 1, uncaught = Some (Error ''missing GitHub bot token''), trace = []\<rparr>
         | Some token \<Rightarrow>
             if token = [] then
               Some \<lparr>exitCode = 1, uncaught = Some (Error ''missing GitHub bot token''), trace = []\<rparr>
             else if int (length argv) - 2 \<noteq> 4 then
               Some \<lparr>exitCode = 1,
                     uncaught = Some (Error ''expected 4 arguments - BUCKET_NAME, REPO_NAME, ISSUE_NUMBER, PARAMETER_PATH''),
                     trace = []\<rparr>
             else
               (let bucket_name = argv ! 2; repo_name = argv ! 3;
                    issue_number = argv ! 4; param_path = argv ! 5 in
                case run_try w hp token bucket_name repo_name issue_number param_path of
                  None \<Rightarrow> None
                | Some (Inr u, tr) \<Rightarrow> Some \<lparr>exitCode = 0, uncaught = None, trace = tr\<rparr>
                | Some (Inl e, tr) \<Rightarrow>
                    (let tr = tr @ [PostComment repo_name issue_number token (message e)] in
                     case postComment w repo_name issue_number token (message e) of
                       Some e' \<Rightarrow> Some \<lparr>exitCode = 1, uncaught = Some e', trace = tr\<rparr>
                     | None \<Rightarrow> Some \<lparr>exitCode = 0, uncaught = None, trace = tr\<rparr>))))"

subsection \<open>Notions used by the properties\<close>

text \<open>The setup guards of lines 30 to 50 all pass.\<close>

definition configured :: "process_env \<Rightarrow> string list \<Rightarrow> bool" where
  "configured env argv =
     (\<not> missing (R2_ACCOUNT_ID env) \<and> \<not> missing (R2_ACCESS_KEY_ID env)
      \<and> \<not> missing (R2_SECRET_ACCESS_KEY env) \<and> \<not> missing (GH_BOT_TOKEN env)
      \<and> length argv = 6)"

text \<open>The try block of a configured process, with the arguments as lines 43 to 54 bind them.\<close>

definition core :: "process_env \<Rightarrow> string list \<Rightarrow> world \<Rightarrow> internal \<Rightarrow> (unit step) option" where
  "core env argv w hp =
     run_try w hp (the (GH_BOT_TOKEN env)) (argv ! 2) (argv ! 3) (argv ! 4) (argv ! 5)"

text \<open>The comment that the catch handler posts for the exception \<open>e\<close>.\<close>

definition comment_for :: "process_env \<Rightarrow> string list \<Rightarrow> exn \<Rightarrow> event" where
  "comment_for env argv e = PostComment (argv ! 3) (argv ! 4) (the (GH_BOT_TOKEN env)) (message e)"

text \<open>The requests of the steps before the commit: scheduled writes and the expiry ticket.\<close>

fun scheduling :: "event \<Rightarrow> bool" where
  "scheduling (PutJson b k v) = True"
| "scheduling (PostIssue r t p) = True"
| "scheduling ev = False"

text \<open>The keys that a list of requests writes to.\<close>

fun written_keys :: "event list \<Rightarrow> string list" where
  "written_keys [] = []"
| "written_keys (PutJson b k v # evs) = k # written_keys evs"
| "written_keys (ev # evs) = written_keys evs"

text \<open>
  \<open>paged w params pages\<close>: asked with \<open>params\<close>, and then with the continuation token
  of each answer, the storage answers with \<open>pages\<close>, of which the last one, and only
  the last one, is not truncated.
\<close>

fun paged :: "world \<Rightarrow> list_params \<Rightarrow> listing list \<Rightarrow> bool" where
  "paged w params [] = False"
| "paged w params [info] = (listObjectsV2 w params = Inr info \<and> \<not> IsTruncated info)"
| "paged w params (info # rest) =
     (listObjectsV2 w params = Inr info \<and> IsTruncated info
      \<and> paged w (params\<lparr>ContinuationToken := NextContinuationToken info\<rparr>) rest)"

text \<open>The keys of the pages that end with the JSON suffix, in the order of the listing.\<close>

definition json_keys :: "listing list \<Rightarrow> string list" where
  "json_keys pages = filter (\<lambda>k. endsWith k ''.json'') (concat (map Contents pages))"


text \<open>The condition under which lines 141 to 162 schedule the write of the permissions.\<close>

definition must_write_permissions :: "world \<Rightarrow> internal \<Rightarrow> string \<Rightarrow> body \<Rightarrow> bool" where
  "must_write_permissions w hp bucket_name bdy =
     (truthy (overwrite_permissions bdy)
      \<or> (case headObject w bucket_name (permissions hp (project bdy)) of
            None \<Rightarrow> False | Some e \<Rightarrow> statusCode e = Some 404))"

subsection \<open>A concrete project\<close>

text \<open>
  An instance of the helpers and of the world, on which the properties below are
  evaluated: project \<open>p\<close>, version \<open>v1\<close>, a lock, no pointers, no expiry file, no
  permissions, and a listing of two pages with two JSON objects.
\<close>

definition demo_internal :: internal where
  "demo_internal =
     \<lparr>lock = (\<lambda>p v. p @ ''/'' @ v @ ''/..LOCK''),
      expiry = (\<lambda>p v. p @ ''/'' @ v @ ''/..expiry.json''),
      versionMetadata = (\<lambda>p v. p @ ''/'' @ v @ ''/..revision.json''),
      aggregated = (\<lambda>p v. p @ ''/'' @ v @ ''/..aggregated.json''),
      permissions = (\<lambda>p. p @ ''/..permissions.json''),
      latestPersistent = (\<lambda>p. p @ ''/..latest.json''),
      latestAll = (\<lambda>p. p @ ''/..latest_all.json''),
      formatLatest = (\<lambda>v i. JObj [(''version'', JStr v), (''index_time'', JNum i)])\<rparr>"

definition demo_env :: process_env where
  "demo_env = \<lparr>R2_ACCOUNT_ID = Some ''acc'', R2_ACCESS_KEY_ID = Some ''key'',
               R2_SECRET_ACCESS_KEY = Some ''secret'', GH_BOT_TOKEN = Some ''tok''\<rparr>"

definition demo_argv :: "string list" where
  "demo_argv = [''node'', ''src/index-project.js'', ''bucket'', ''owner/repo'', ''12'', ''body.json'']"

definition demo_body :: body where
  "demo_body = \<lparr>project = ''p'', version = ''v1'', timestamp = JNum 10,
                overwrite_permissions = JBool False,
                body_permissions = JObj [(''owners'', JArr [JStr ''me''])]\<rparr>"

definition not_found :: exn where
  "not_found = \<lparr>message = ''Not Found'', statusCode = Some 404\<rparr>"

definition demo_page1 :: listing where
  "demo_page1 = \<lparr>Contents = [''p/v1/..LOCK'', ''p/v1/a.json''], IsTruncated = True,
                 NextContinuationToken = Some ''t1''\<rparr>"

definition demo_page2 :: listing where
  "demo_page2 = \<lparr>Contents = [''p/v1/a.txt'', ''p/v1/b/c.json''], IsTruncated = False,
                 NextContinuationToken = None\<rparr>"

definition demo_iso :: "jsval \<Rightarrow> exn + string" where
  "demo_iso x =
     (if x = JNum 10 then Inr ''1970-01-01T00:00:00.010Z''
      else if x = JNum 50 then Inr ''1970-01-01T00:00:00.050Z''
      else if x = JNum 57 then Inr ''1970-01-01T00:00:00.057Z''
      else Inl (Error ''Invalid time value''))"

definition demo_world :: world where
  "demo_world =
     \<lparr>readParams = (\<lambda>path. Inr demo_body),
      headObject = (\<lambda>b k. if k = ''p/v1/..LOCK'' then None else Some not_found),
      getJson = (\<lambda>b k. if k = ''p/v1/a.json'' then Inr (JObj [(''x'', JNum 1)])
                        else if k = ''p/v1/b/c.json'' then Inr (JStr ''c'') else Inr JNull),
      listObjectsV2 = (\<lambda>ps. if ContinuationToken ps = None then Inr demo_page1 else Inr demo_page2),
      putJson = (\<lambda>b k v. None),
      deleteObject = (\<lambda>b k. None),
      postIssue = (\<lambda>r t p. Inr \<lparr>ok = True, json = Inr (JObj [(''number'', JNum 7)])\<rparr>),
      closeIssue = (\<lambda>r i t. None),
      postComment = (\<lambda>r i t m. None),
      now = 50,
      toISOString = demo_iso,
      toString = (\<lambda>v. []),
      typeError = (\<lambda>x name. Error (''Cannot read properties of undefined (reading '' @ name @ '')''))\<rparr>"

text \<open>The writes that the run schedules in this world.\<close>

definition demo_writes :: "event list" where
  "demo_writes =
     [PutJson ''bucket'' ''p/v1/..revision.json''
        (JObj [(''upload_time'', JStr ''1970-01-01T00:00:00.010Z''),
               (''index_time'', JStr ''1970-01-01T00:00:00.050Z'')]),
      PutJson ''bucket'' ''p/v1/..aggregated.json'' (JArr [JObj [(''x'', JNum 1)], JStr ''c'']),
      PutJson ''bucket'' ''p/..permissions.json'' (JObj [(''owners'', JArr [JStr ''me''])]),
      PutJson ''bucket'' ''p/..latest.json'' (JObj [(''version'', JStr ''v1''), (''index_time'', JNum 50)]),
      PutJson ''bucket'' ''p/..latest_all.json'' (JObj [(''version'', JStr ''v1''), (''index_time'', JNum 50)])]"

text \<open>The same world without the lock; and where, besides, the comment cannot be posted.\<close>

definition lockless_world :: world where
  "lockless_world = demo_world\<lparr>headObject := (\<lambda>b k. Some not_found)\<rparr>"


text \<open>A parameter file that does not parse, and a comment that cannot be posted.\<close>

definition unparsable_world :: world where
  "unparsable_world =
     demo_world\<lparr>readParams := (\<lambda>path. Inl (Error ''Unexpected token'')),
                postComment := (\<lambda>r i t m. Some (Error ''fetch failed''))\<rparr>"


text \<open>The version has an expiry file; the requests of the run in that world.\<close>

definition expiring_world :: world where
  "expiring_world =
     demo_world\<lparr>getJson := (\<lambda>b k. if k = ''p/v1/..expiry.json''
                                   then Inr (JObj [(''expires_in'', JNum 7)])
                                   else getJson demo_world b k)\<rparr>"


text \<open>A pointer older than the run exists at every key.\<close>

definition older_pointer :: jsval where
  "older_pointer = JObj [(''version'', JStr ''v0''), (''index_time'', JNum 40)]"

definition older_world :: world where
  "older_world = demo_world\<lparr>getJson := (\<lambda>b k. Inr older_pointer)\<rparr>"





text \<open>The expiry file has no \<open>expires_in\<close>.\<close>

definition bare_expiry_world :: world where
  "bare_expiry_world =
     demo_world\<lparr>getJson := (\<lambda>b k. if k = ''p/v1/..expiry.json'' then Inr (JObj [])
                                  else getJson demo_world b k)\<rparr>"



text \<open>The write of the aggregated blob is rejected.\<close>

definition putfail_world :: world where
  "putfail_world =
     demo_world\<lparr>putJson := (\<lambda>b k v. if k = ''p/v1/..aggregated.json''
                                   then Some (Error ''put failed'') else None)\<rparr>"

section \<open>Properties\<close>

subsection \<open>The process and the try block\<close>

lemma main_configured:
  assumes "configured env argv"
  shows "main env argv w hp =
     (case core env argv w hp of
        None \<Rightarrow> None
      | Some (Inr u, tr) \<Rightarrow> Some \<lparr>exitCode = 0, uncaught = None, trace = tr\<rparr>
      | Some (Inl e, tr) \<Rightarrow>
          (case postComment w (argv ! 3) (argv ! 4) (the (GH_BOT_TOKEN env)) (message e) of
             Some e' \<Rightarrow> Some \<lparr>exitCode = 1, uncaught = Some e', trace = tr @ [comment_for env argv e]\<rparr>
           | None \<Rightarrow> Some \<lparr>exitCode = 0, uncaught = None, trace = tr @ [comment_for env argv e]\<rparr>))"
proof -
  from assms obtain token where t: "GH_BOT_TOKEN env = Some token" "token \<noteq> []"
    by (cases "GH_BOT_TOKEN env") (auto simp: configured_def)
  from assms have g: "\<not> missing (R2_ACCOUNT_ID env)" "\<not> missing (R2_ACCESS_KEY_ID env)"
    "\<not> missing (R2_SECRET_ACCESS_KEY env)" "length argv = 6"
    by (auto simp: configured_def)
  show ?thesis
    by (simp add: main_def core_def comment_for_def t g Let_def split: option.splits sum.splits prod.splits)
qed


lemma run_try_cases:
  assumes "run_try w hp token b repo issue path = Some (r, tr)"
  shows "(\<exists>e. readParams w path = Inl e \<and> r = Inl e \<and> tr = [])
    \<or> (\<exists>bdy. readParams w path = Inr bdy \<and>
          ((headObject w b (lock hp (project bdy) (version bdy)) \<noteq> None
             \<and> r = Inl (Error ''failed to acquire the lock file for this project version'') \<and> tr = [])
         \<or> (headObject w b (lock hp (project bdy) (version bdy)) = None \<and>
              ((\<exists>e. schedule w hp b repo token bdy = Some (Inl e, tr) \<and> r = Inl e)
             \<or> (\<exists>tr0. schedule w hp b repo token bdy = Some (Inr (), tr0)
                  \<and> finish w b repo issue token (lock hp (project bdy) (version bdy)) tr0 = (r, tr))))))"
  using assms
  by (auto simp: run_try_def lock_check_def Let_def split: sum.splits option.splits prod.splits)

lemma finish_cases:
  assumes "finish w b repo issue token lockpath tr0 = (r, tr)"
  shows "(\<exists>e. await_writes w tr0 = Some e \<and> r = Inl e \<and> tr = tr0)
    \<or> (await_writes w tr0 = None \<and>
         ((\<exists>e. deleteObject w b lockpath = Some e \<and> r = Inl e \<and> tr = tr0 @ [DeleteObject b lockpath])
        \<or> (deleteObject w b lockpath = None \<and> tr = tr0 @ [DeleteObject b lockpath, CloseIssue repo issue token]
             \<and> ((\<exists>e. closeIssue w repo issue token = Some e \<and> r = Inl e)
                \<or> (closeIssue w repo issue token = None \<and> r = Inr ())))))"
  using assms
  by (auto simp: finish_def Let_def split: option.splits)

lemma await_writes_None:
  "await_writes w tr = None \<longleftrightarrow> (\<forall>b k v. PutJson b k v \<in> set tr \<longrightarrow> putJson w b k v = None)"
  by (induction w tr rule: await_writes.induct) (fastforce split: option.splits)+

subsection \<open>The requests of each step\<close>

lemma written_keys_append: "written_keys (xs @ ys) = written_keys xs @ written_keys ys"
  by (induction xs rule: written_keys.induct) auto

lemma written_keys_iff: "k \<in> set (written_keys tr) \<longleftrightarrow> (\<exists>b v. PutJson b k v \<in> set tr)"
  by (induction tr rule: written_keys.induct) auto

lemma version_meta_step_ext:
  "version_meta_step w hp b repo token bdy it tr = (r, tr') \<Longrightarrow>
   \<exists>ys. tr' = tr @ ys \<and> list_all scheduling ys
     \<and> set (written_keys ys) \<subseteq> {versionMetadata hp (project bdy) (version bdy)}"
  by (auto simp: version_meta_step_def Let_def split: sum.splits if_splits type_error.splits)

lemma aggregation_step_ext:
  "aggregation_step w hp b bdy tr = Some (r, tr') \<Longrightarrow>
   \<exists>ys. tr' = tr @ ys \<and> list_all scheduling ys
     \<and> set (written_keys ys) \<subseteq> {aggregated hp (project bdy) (version bdy)}"
  by (auto simp: aggregation_step_def split: option.splits sum.splits)

lemma permissions_step_ext:
  "permissions_step w hp b bdy tr = (r, tr') \<Longrightarrow>
   \<exists>ys. tr' = tr @ ys \<and> list_all scheduling ys
     \<and> set (written_keys ys) \<subseteq> {permissions hp (project bdy)}"
  by (auto simp: permissions_step_def Let_def split: sum.splits if_splits option.splits)

lemma permissions_step_success:
  "permissions_step w hp b bdy tr = (Inr u, tr') \<Longrightarrow>
   tr' = (if must_write_permissions w hp b bdy
          then tr @ [PutJson b (permissions hp (project bdy)) (body_permissions bdy)] else tr)"
  by (auto simp: permissions_step_def must_write_permissions_def Let_def
      split: sum.splits if_splits option.splits)

lemma fill_latest_ext:
  "fill_latest w hp b l v i tr = (r, tr') \<Longrightarrow>
   \<exists>ys. tr' = tr @ ys \<and> list_all scheduling ys \<and> set (written_keys ys) \<subseteq> {l}"
  by (auto simp: fill_latest_def split: sum.splits if_splits jsval.splits)

lemma latest_step_ext:
  assumes "latest_step w hp b bdy it he tr = (r, tr')"
  shows "\<exists>ys. tr' = tr @ ys \<and> list_all scheduling ys
     \<and> set (written_keys ys) \<subseteq> {latestPersistent hp (project bdy), latestAll hp (project bdy)}"
proof (cases "persistent_step w hp b bdy it he tr")
  case (Pair r1 tr1)
  then obtain l v i where f: "fill_latest w hp b l v i tr = (r1, tr1)" "l = latestPersistent hp (project bdy)"
    by (auto simp: persistent_step_def Let_def split: if_splits)
  from fill_latest_ext[OF f(1)] obtain ys where ys: "tr1 = tr @ ys" "list_all scheduling ys"
    "set (written_keys ys) \<subseteq> {l}" by blast
  show ?thesis
  proof (cases r1)
    case (Inl e)
    with assms Pair have "tr' = tr1" by (simp add: latest_step_def)
    with ys f(2) show ?thesis by auto
  next
    case (Inr u)
    with assms Pair have "fill_latest w hp b (latestAll hp (project bdy)) (version bdy) it tr1 = (r, tr')"
      by (simp add: latest_step_def)
    from fill_latest_ext[OF this] obtain zs where zs: "tr' = tr1 @ zs" "list_all scheduling zs"
      "set (written_keys zs) \<subseteq> {latestAll hp (project bdy)}" by blast
    with ys f(2) show ?thesis by (auto simp: written_keys_append)
  qed
qed

lemma schedule_success:
  assumes "schedule w hp b repo token bdy = Some (Inr u, tr)"
  shows "\<exists>he tr1 tr2 tr3.
      version_meta_step w hp b repo token bdy (now w) [] = (Inr he, tr1)
    \<and> aggregation_step w hp b bdy tr1 = Some (Inr (), tr2)
    \<and> permissions_step w hp b bdy tr2 = (Inr (), tr3)
    \<and> latest_step w hp b bdy (now w) he tr3 = (Inr (), tr)"
  using assms
  by (auto simp: schedule_def Let_def split: prod.splits sum.splits option.splits)

lemma schedule_events:
  assumes "schedule w hp b repo token bdy = Some (r, tr)"
  shows "list_all scheduling tr"
proof -
  obtain r1 tr1 where s1: "version_meta_step w hp b repo token bdy (now w) [] = (r1, tr1)"
    by (cases "version_meta_step w hp b repo token bdy (now w) []")
  from version_meta_step_ext[OF s1] have e1: "list_all scheduling tr1" by auto
  show ?thesis
  proof (cases r1)
    case (Inl e)
    with assms s1 e1 show ?thesis by (simp add: schedule_def)
  next
    case (Inr he)
    with assms s1 obtain r2 tr2 where s2: "aggregation_step w hp b bdy tr1 = Some (r2, tr2)"
      by (cases "aggregation_step w hp b bdy tr1") (auto simp: schedule_def)
    from aggregation_step_ext[OF s2] e1 have e2: "list_all scheduling tr2" by auto
    show ?thesis
    proof (cases r2)
      case (Inl e)
      with assms s1 s2 e2 \<open>r1 = Inr he\<close> show ?thesis by (simp add: schedule_def)
    next
      case (Inr u2)
      obtain r3 tr3 where s3: "permissions_step w hp b bdy tr2 = (r3, tr3)"
        by (cases "permissions_step w hp b bdy tr2")
      from permissions_step_ext[OF s3] e2 have e3: "list_all scheduling tr3" by auto
      show ?thesis
      proof (cases r3)
        case (Inl e)
        with assms s1 s2 s3 e3 \<open>r1 = Inr he\<close> \<open>r2 = Inr u2\<close> show ?thesis by (simp add: schedule_def)
      next
        case (Inr u3)
        with assms s1 s2 s3 \<open>r1 = Inr he\<close> \<open>r2 = Inr u2\<close>
        have "latest_step w hp b bdy (now w) he tr3 = (r, tr)" by (simp add: schedule_def)
        from latest_step_ext[OF this] e3 show ?thesis by auto
      qed
    qed
  qed
qed

lemma schedule_prefix:
  assumes "schedule w hp b repo token bdy = Some (r, tr)"
    and "version_meta_step w hp b repo token bdy (now w) [] = (Inr he, tr1)"
  shows "\<exists>ys. tr = tr1 @ ys"
proof -
  from assms obtain r2 tr2 where s2: "aggregation_step w hp b bdy tr1 = Some (r2, tr2)"
    by (cases "aggregation_step w hp b bdy tr1") (auto simp: schedule_def)
  from aggregation_step_ext[OF s2] obtain ys2 where y2: "tr2 = tr1 @ ys2" by blast
  show ?thesis
  proof (cases r2)
    case (Inl e)
    with assms s2 y2 show ?thesis by (auto simp: schedule_def)
  next
    case (Inr u2)
    obtain r3 tr3 where s3: "permissions_step w hp b bdy tr2 = (r3, tr3)"
      by (cases "permissions_step w hp b bdy tr2")
    from permissions_step_ext[OF s3] obtain ys3 where y3: "tr3 = tr2 @ ys3" by blast
    show ?thesis
    proof (cases r3)
      case (Inl e)
      with assms s2 s3 y2 y3 \<open>r2 = Inr u2\<close> show ?thesis by (auto simp: schedule_def)
    next
      case (Inr u3)
      with assms s2 s3 \<open>r2 = Inr u2\<close>
      have "latest_step w hp b bdy (now w) he tr3 = (r, tr)" by (simp add: schedule_def)
      from latest_step_ext[OF this] y2 y3 show ?thesis by auto
    qed
  qed
qed

lemma run_try_meta_failed:
  assumes "readParams w path = Inr bdy"
    and "headObject w b (lock hp (project bdy) (version bdy)) = None"
    and "version_meta_step w hp b repo token bdy (now w) [] = (Inl e, tr1)"
  shows "run_try w hp token b repo issue path = Some (Inl e, tr1)"
  using assms by (simp add: run_try_def lock_check_def schedule_def)

lemma run_try_meta_prefix:
  assumes "readParams w path = Inr bdy"
    and "headObject w b (lock hp (project bdy) (version bdy)) = None"
    and "version_meta_step w hp b repo token bdy (now w) [] = (Inr he, tr1)"
    and "run_try w hp token b repo issue path = Some (r, tr)"
  shows "\<exists>ys. tr = tr1 @ ys"
proof -
  from run_try_cases[OF assms(4)] assms(1,2)
  consider (sched) e where "schedule w hp b repo token bdy = Some (Inl e, tr)"
    | (fin) tr0 where "schedule w hp b repo token bdy = Some (Inr (), tr0)"
        "finish w b repo issue token (lock hp (project bdy) (version bdy)) tr0 = (r, tr)"
    by auto
  then show ?thesis
  proof cases
    case sched
    from schedule_prefix[OF this assms(3)] show ?thesis .
  next
    case fin
    from schedule_prefix[OF fin(1) assms(3)] obtain ys where "tr0 = tr1 @ ys" ..
    with finish_cases[OF fin(2)] show ?thesis by auto
  qed
qed






subsection \<open>The listing loop\<close>

lemma list_loop_paged:
  "paged w params pages \<Longrightarrow> list_loop w params acc = Some (Inr (acc @ json_keys pages))"
proof (induction w params pages arbitrary: acc rule: paged.induct)
  case (1 w params)
  then show ?case by simp
next
  case (2 w params info)
  then show ?case by (subst list_loop.simps) (simp add: json_keys_def)
next
  case (3 w params info v va)
  then show ?case by (subst list_loop.simps) (simp add: json_keys_def)
qed

lemma run_try_terminates:
  assumes "readParams w path = Inr bdy"
    and "paged w \<lparr>Bucket = b, Prefix = project bdy @ ''/'' @ version bdy @ ''/'',
                   ContinuationToken = None\<rparr> pages"
  shows "\<exists>r tr. run_try w hp token b repo issue path = Some (r, tr)"
proof -
  have agg: "\<exists>x. aggregation_step w hp b bdy tr = Some x" for tr
    using list_loop_paged[OF assms(2), of "[]"]
    by (simp add: aggregation_step_def split: sum.splits)
  have "\<exists>x. schedule w hp b repo token bdy = Some x"
  proof (cases "version_meta_step w hp b repo token bdy (now w) []")
    case (Pair r1 tr1)
    show ?thesis
    proof (cases r1)
      case (Inl e)
      with Pair show ?thesis by (simp add: schedule_def)
    next
      case (Inr he)
      from agg[of tr1] obtain r2 tr2 where "aggregation_step w hp b bdy tr1 = Some (r2, tr2)"
        by auto
      with Pair Inr show ?thesis
        by (cases r2; cases "permissions_step w hp b bdy tr2")
          (auto simp: schedule_def split: sum.splits)
    qed
  qed
  then obtain rs trs where "schedule w hp b repo token bdy = Some (rs, trs)" by auto
  with assms(1) show ?thesis
    by (cases rs; cases "lock_check w b (lock hp (project bdy) (version bdy))")
      (auto simp: run_try_def Let_def)
qed

subsection \<open>The run in the concrete worlds\<close>

lemmas demo_defs = demo_internal_def demo_env_def demo_argv_def demo_body_def not_found_def
  demo_page1_def demo_page2_def demo_iso_def demo_world_def

lemma demo_configured: "configured demo_env demo_argv"
  by (simp add: configured_def demo_env_def demo_argv_def)

lemma demo_hyps:
  "readParams demo_world (demo_argv ! 5) = Inr demo_body"
  "lock demo_internal (project demo_body) (version demo_body) = ''p/v1/..LOCK''"
  "demo_argv ! 2 = ''bucket''" "demo_argv ! 3 = ''owner/repo''" "demo_argv ! 4 = ''12''"
  "demo_argv ! 5 = ''body.json''" "the (GH_BOT_TOKEN demo_env) = ''tok''"
  by (simp_all add: demo_defs)

lemma demo_paged:
  "listObjectsV2 w = listObjectsV2 demo_world \<Longrightarrow>
   paged w \<lparr>Bucket = ''bucket'', Prefix = ''p/v1/'', ContinuationToken = None\<rparr>
     [demo_page1, demo_page2]"
  by (simp add: demo_world_def demo_page1_def demo_page2_def)

lemma demo_json_keys: "json_keys [demo_page1, demo_page2] = [''p/v1/a.json'', ''p/v1/b/c.json'']"
  by (simp add: json_keys_def endsWith_def demo_page1_def demo_page2_def)

lemma demo_list_loop:
  "listObjectsV2 w = listObjectsV2 demo_world \<Longrightarrow>
   list_loop w \<lparr>Bucket = ''bucket'', Prefix = ''p/v1/'', ContinuationToken = None\<rparr> [] =
     Some (Inr [''p/v1/a.json'', ''p/v1/b/c.json''])"
  using list_loop_paged[OF demo_paged, of w "[]"] by (simp add: demo_json_keys)

lemma demo_schedule:
  assumes "headObject w = headObject demo_world" "getJson w = getJson demo_world"
    "listObjectsV2 w = listObjectsV2 demo_world" "now w = 50" "toISOString w = demo_iso"
  shows "schedule w demo_internal ''bucket'' ''owner/repo'' ''tok'' demo_body
     = Some (Inr (), demo_writes)"
proof -
  have l: "list_loop w \<lparr>Bucket = ''bucket'', Prefix = ''p/v1/'', ContinuationToken = None\<rparr> [] =
     Some (Inr [''p/v1/a.json'', ''p/v1/b/c.json''])"
    by (rule demo_list_loop) (rule assms)
  have 1: "version_meta_step w demo_internal ''bucket'' ''owner/repo'' ''tok'' demo_body 50 []
      = (Inr False, [demo_writes ! 0])"
    by (simp add: version_meta_step_def assms demo_defs demo_writes_def)
  have 2: "aggregation_step w demo_internal ''bucket'' demo_body [demo_writes ! 0]
      = Some (Inr (), take 2 demo_writes)"
  proof -
    have ra: "resolve_all w ''bucket'' [''p/v1/a.json'', ''p/v1/b/c.json'']
        = Inr [JObj [(''x'', JNum 1)], JStr ''c'']"
      by (simp add: assms demo_world_def)
    show ?thesis
      by (simp add: aggregation_step_def demo_internal_def demo_body_def demo_writes_def l ra
          del: resolve_all.simps)
  qed
  have 3: "permissions_step w demo_internal ''bucket'' demo_body (take 2 demo_writes)
      = (Inr (), take 3 demo_writes)"
    by (simp add: permissions_step_def assms demo_defs demo_writes_def)
  have 4: "latest_step w demo_internal ''bucket'' demo_body 50 False (take 3 demo_writes)
      = (Inr (), demo_writes)"
    by (simp add: latest_step_def persistent_step_def fill_latest_def assms demo_defs demo_writes_def)
  show ?thesis by (simp add: schedule_def assms 1 2 3 4)
qed

lemma demo_finish:
  assumes "putJson w = putJson demo_world" "deleteObject w = deleteObject demo_world"
  shows "finish w ''bucket'' ''owner/repo'' ''12'' ''tok'' ''p/v1/..LOCK'' demo_writes =
     (case closeIssue w ''owner/repo'' ''12'' ''tok'' of
        Some e \<Rightarrow> Inl e | None \<Rightarrow> Inr (),
      demo_writes @ [DeleteObject ''bucket'' ''p/v1/..LOCK'', CloseIssue ''owner/repo'' ''12'' ''tok''])"
proof -
  have a: "await_writes w demo_writes = None"
    by (simp add: demo_writes_def assms demo_world_def)
  have d: "deleteObject w ''bucket'' ''p/v1/..LOCK'' = None"
    by (simp add: assms demo_world_def)
  show ?thesis by (simp add: finish_def a d split: option.splits)
qed

lemma demo_run_try:
  assumes "readParams w = readParams demo_world"
    "headObject w = headObject demo_world" "getJson w = getJson demo_world"
    "listObjectsV2 w = listObjectsV2 demo_world" "now w = 50" "toISOString w = demo_iso"
    "putJson w = putJson demo_world" "deleteObject w = deleteObject demo_world"
  shows "core demo_env demo_argv w demo_internal =
     Some (case closeIssue w ''owner/repo'' ''12'' ''tok'' of
             Some e \<Rightarrow> Inl e | None \<Rightarrow> Inr (),
           demo_writes @ [DeleteObject ''bucket'' ''p/v1/..LOCK'',
                          CloseIssue ''owner/repo'' ''12'' ''tok''])"
proof -
  have r: "readParams w ''body.json'' = Inr demo_body" by (simp add: assms demo_world_def)
  have h: "headObject w ''bucket'' ''p/v1/..LOCK'' = None" by (simp add: assms demo_world_def)
  have lk: "lock demo_internal (project demo_body) (version demo_body) = ''p/v1/..LOCK''"
    by (simp add: demo_internal_def demo_body_def)
  show ?thesis
    by (simp add: core_def demo_env_def demo_argv_def run_try_def r lk lock_check_def h
        demo_schedule[OF assms(2-6)] demo_finish[OF assms(7,8)])
qed

lemma demo_core:
  "core demo_env demo_argv demo_world demo_internal =
     Some (Inr (), demo_writes @ [DeleteObject ''bucket'' ''p/v1/..LOCK'',
                                  CloseIssue ''owner/repo'' ''12'' ''tok''])"
  using demo_run_try[of demo_world] by (simp add: demo_world_def)







lemma bare_expiry_core:
  "core demo_env demo_argv bare_expiry_world demo_internal =
     Some (Inl (Error ''Invalid time value''), [])"
proof -
  let ?w = bare_expiry_world
  have 1: "version_meta_step ?w demo_internal ''bucket'' ''owner/repo'' ''tok'' demo_body 50 []
      = (Inl (Error ''Invalid time value''), [])"
    by (simp add: version_meta_step_def bare_expiry_world_def demo_defs)
  have n: "now ?w = 50" by (simp add: bare_expiry_world_def demo_world_def)
  have r: "readParams ?w ''body.json'' = Inr demo_body"
    by (simp add: bare_expiry_world_def demo_world_def)
  have h: "headObject ?w ''bucket'' ''p/v1/..LOCK'' = None"
    by (simp add: bare_expiry_world_def demo_world_def)
  have lk: "lock demo_internal (project demo_body) (version demo_body) = ''p/v1/..LOCK''"
    by (simp add: demo_internal_def demo_body_def)
  show ?thesis
    by (simp add: core_def demo_env_def demo_argv_def run_try_def r lk lock_check_def h
        schedule_def n 1)
qed


lemma putfail_core:
  "core demo_env demo_argv putfail_world demo_internal =
     Some (Inl (Error ''put failed''), demo_writes)"
proof -
  let ?w = putfail_world
  have s: "schedule ?w demo_internal ''bucket'' ''owner/repo'' ''tok'' demo_body
     = Some (Inr (), demo_writes)"
    by (rule demo_schedule) (simp_all add: putfail_world_def demo_world_def)
  have a: "await_writes ?w demo_writes = Some (Error ''put failed'')"
    by (simp add: demo_writes_def putfail_world_def)
  have r: "readParams ?w ''body.json'' = Inr demo_body"
    by (simp add: putfail_world_def demo_world_def)
  have h: "headObject ?w ''bucket'' ''p/v1/..LOCK'' = None"
    by (simp add: putfail_world_def demo_world_def)
  have lk: "lock demo_internal (project demo_body) (version demo_body) = ''p/v1/..LOCK''"
    by (simp add: demo_internal_def demo_body_def)
  show ?thesis
    by (simp add: core_def demo_env_def demo_argv_def run_try_def r lk lock_check_def h s
        finish_def a)
qed


subsection \<open>The claims\<close>

text \<open>
  Claim C1. When the head request on the lock object fails, the run fails with the
  lock-acquisition error and performs no storage write: the only request of the process is
  the comment that reports the error; no version metadata, aggregated blob, permissions
  or latest pointer is written and the lock is not deleted.
\<close>

theorem lock_absent_no_writes:
  assumes "configured env argv"
    and "readParams w (argv ! 5) = Inr bdy"
    and "headObject w (argv ! 2) (lock hp (project bdy) (version bdy)) = Some e"
  shows "core env argv w hp =
           Some (Inl (Error ''failed to acquire the lock file for this project version''), [])
       \<and> (\<exists>r. main env argv w hp = Some r
            \<and> trace r = [PostComment (argv ! 3) (argv ! 4) (the (GH_BOT_TOKEN env))
                           ''failed to acquire the lock file for this project version'']
            \<and> (\<forall>b k v. PutJson b k v \<notin> set (trace r))
            \<and> (\<forall>b k. DeleteObject b k \<notin> set (trace r)))"
proof -
  have c: "core env argv w hp =
           Some (Inl (Error ''failed to acquire the lock file for this project version''), [])"
    using assms(2,3) by (simp add: core_def run_try_def lock_check_def)
  show ?thesis
    unfolding main_configured[OF assms(1)] c
    by (simp add: comment_for_def Error_def split: option.splits)
qed

theorem lock_absent_no_writes_witness:
  "configured demo_env demo_argv
   \<and> readParams lockless_world (demo_argv ! 5) = Inr demo_body
   \<and> headObject lockless_world (demo_argv ! 2)
        (lock demo_internal (project demo_body) (version demo_body)) = Some not_found
   \<and> (\<exists>r. main demo_env demo_argv lockless_world demo_internal = Some r
        \<and> trace r = [PostComment ''owner/repo'' ''12'' ''tok''
                       ''failed to acquire the lock file for this project version''])"
proof -
  have h2: "readParams lockless_world (demo_argv ! 5) = Inr demo_body"
    by (simp add: lockless_world_def demo_world_def)
  have h3: "headObject lockless_world (demo_argv ! 2)
        (lock demo_internal (project demo_body) (version demo_body)) = Some not_found"
    by (simp add: lockless_world_def)
  from lock_absent_no_writes[OF demo_configured h2 h3]
  have "\<exists>r. main demo_env demo_argv lockless_world demo_internal = Some r
        \<and> trace r = [PostComment ''owner/repo'' ''12'' ''tok''
                       ''failed to acquire the lock file for this project version'']"
    by (simp add: demo_hyps) blast
  with demo_configured h2 h3 show ?thesis by blast
qed

text \<open>
  Claim C2. A latest-pointer update (\<open>fill_latest\<close>, through which both the persistent and
  the all-versions pointer are updated) writes the candidate when no pointer object exists;
  given a pointer object with a numeric \<open>index_time\<close>, it writes the candidate if and only
  if the stored \<open>index_time\<close> is strictly less than the candidate's, and otherwise
  schedules nothing.
\<close>

theorem fill_latest_strictly_newer:
  assumes "getJson w b l = Inr lat_info"
  shows "(lat_info = JNull \<longrightarrow>
            fill_latest w hp b l v i tr = (Inr (), tr @ [PutJson b l (formatLatest hp v i)]))
       \<and> (\<forall>t. lat_info \<noteq> JNull \<and> get_prop lat_info ''index_time'' = Inr (JNum t) \<longrightarrow>
            fill_latest w hp b l v i tr =
              (Inr (), if t < i then tr @ [PutJson b l (formatLatest hp v i)] else tr))"
proof -
  have "lat_info \<noteq> JUndefined" if "get_prop lat_info ''index_time'' = Inr (JNum t)" for t
    using that by auto
  then show ?thesis using assms by (auto simp: fill_latest_def)
qed

theorem fill_latest_strictly_newer_witness:
  "getJson older_world ''bucket'' ''p/..latest.json'' = Inr older_pointer
   \<and> older_pointer \<noteq> JNull
   \<and> get_prop older_pointer ''index_time'' = Inr (JNum 40)
   \<and> fill_latest older_world demo_internal ''bucket'' ''p/..latest.json'' ''v1'' 50 [] =
       (Inr (), [PutJson ''bucket'' ''p/..latest.json''
                   (JObj [(''version'', JStr ''v1''), (''index_time'', JNum 50)])])
   \<and> fill_latest older_world demo_internal ''bucket'' ''p/..latest.json'' ''v1'' 40 [] = (Inr (), [])
   \<and> getJson demo_world ''bucket'' ''p/..latest.json'' = Inr JNull
   \<and> fill_latest demo_world demo_internal ''bucket'' ''p/..latest.json'' ''v1'' 50 [] =
       (Inr (), [PutJson ''bucket'' ''p/..latest.json''
                   (JObj [(''version'', JStr ''v1''), (''index_time'', JNum 50)])])"
proof -
  have h: "getJson older_world ''bucket'' ''p/..latest.json'' = Inr older_pointer"
    by (simp add: older_world_def)
  have n: "older_pointer \<noteq> JNull" by (simp add: older_pointer_def)
  have p: "get_prop older_pointer ''index_time'' = Inr (JNum 40)" by (simp add: older_pointer_def)
  have h': "getJson demo_world ''bucket'' ''p/..latest.json'' = Inr JNull"
    by (simp add: demo_world_def)
  have f: "formatLatest demo_internal ''v1'' i = JObj [(''version'', JStr ''v1''), (''index_time'', JNum i)]" for i
    by (simp add: demo_internal_def)
  from fill_latest_strictly_newer[OF h, of demo_internal "''v1''" 50 "[]"] n p
  have a: "fill_latest older_world demo_internal ''bucket'' ''p/..latest.json'' ''v1'' 50 [] =
       (Inr (), [PutJson ''bucket'' ''p/..latest.json''
                   (JObj [(''version'', JStr ''v1''), (''index_time'', JNum 50)])])"
    by (simp add: f)
  from fill_latest_strictly_newer[OF h, of demo_internal "''v1''" 40 "[]"] n p
  have b: "fill_latest older_world demo_internal ''bucket'' ''p/..latest.json'' ''v1'' 40 [] = (Inr (), [])"
    by simp
  from fill_latest_strictly_newer[OF h', of demo_internal "''v1''" 50 "[]"]
  have c: "fill_latest demo_world demo_internal ''bucket'' ''p/..latest.json'' ''v1'' 50 [] =
       (Inr (), [PutJson ''bucket'' ''p/..latest.json''
                   (JObj [(''version'', JStr ''v1''), (''index_time'', JNum 50)])])"
    by (simp add: f)
  from h n p a b h' c show ?thesis by blast
qed









text \<open>
  Claim C6. In a run that completes, with the permissions path different from the other
  paths that the run writes to, the permissions path is written if and only if
  \<open>overwrite_permissions\<close> is true or the head request on the permissions path fails
  with status 404; what is written there is the permissions object of the parameters.
\<close>

theorem permissions_written_iff:
  assumes "core env argv w hp = Some (Inr (), tr)"
    and "readParams w (argv ! 5) = Inr bdy"
    and "permissions hp (project bdy) \<notin>
           {versionMetadata hp (project bdy) (version bdy), aggregated hp (project bdy) (version bdy),
            latestPersistent hp (project bdy), latestAll hp (project bdy)}"
  shows "((\<exists>b v. PutJson b (permissions hp (project bdy)) v \<in> set tr) \<longleftrightarrow>
            (truthy (overwrite_permissions bdy)
             \<or> (\<exists>e. headObject w (argv ! 2) (permissions hp (project bdy)) = Some e
                     \<and> statusCode e = Some 404)))
       \<and> (\<forall>b v. PutJson b (permissions hp (project bdy)) v \<in> set tr \<longrightarrow>
             b = argv ! 2 \<and> v = body_permissions bdy)"
proof -
  let ?token = "the (GH_BOT_TOKEN env)" and ?b = "argv ! 2"
  let ?pp = "permissions hp (project bdy)"
  let ?must = "truthy (overwrite_permissions bdy)
             \<or> (\<exists>e. headObject w ?b ?pp = Some e \<and> statusCode e = Some 404)"
  from assms(1) have rt: "run_try w hp ?token ?b (argv ! 3) (argv ! 4) (argv ! 5) = Some (Inr (), tr)"
    by (simp add: core_def)
  from run_try_cases[OF rt] assms(2) obtain tr0 where
    s: "schedule w hp ?b (argv ! 3) ?token bdy = Some (Inr (), tr0)"
    and f: "finish w ?b (argv ! 3) (argv ! 4) ?token (lock hp (project bdy) (version bdy)) tr0 = (Inr (), tr)"
    by auto
  from finish_cases[OF f] have t: "tr = tr0 @ [DeleteObject ?b (lock hp (project bdy) (version bdy)),
                        CloseIssue (argv ! 3) (argv ! 4) ?token]" by auto
  from schedule_success[OF s] obtain he tr1 tr2 tr3 where
    s1: "version_meta_step w hp ?b (argv ! 3) ?token bdy (now w) [] = (Inr he, tr1)"
    and s2: "aggregation_step w hp ?b bdy tr1 = Some (Inr (), tr2)"
    and s3: "permissions_step w hp ?b bdy tr2 = (Inr (), tr3)"
    and s4: "latest_step w hp ?b bdy (now w) he tr3 = (Inr (), tr0)" by blast
  from version_meta_step_ext[OF s1] have k1: "?pp \<notin> set (written_keys tr1)"
    using assms(3) by auto
  from aggregation_step_ext[OF s2] obtain ys2 where y2: "tr2 = tr1 @ ys2" "?pp \<notin> set (written_keys ys2)"
    using assms(3) by auto
  from latest_step_ext[OF s4] obtain ys4 where y4: "tr0 = tr3 @ ys4" "?pp \<notin> set (written_keys ys4)"
    using assms(3) by auto
  have m: "?must \<longleftrightarrow> must_write_permissions w hp ?b bdy"
    by (auto simp: must_write_permissions_def split: option.splits)
  from permissions_step_success[OF s3]
  have y3: "tr3 = (if ?must then tr2 @ [PutJson ?b ?pp (body_permissions bdy)] else tr2)"
    unfolding m .
  have n1: "PutJson b ?pp v \<notin> set tr1" for b v using k1 by (auto simp: written_keys_iff)
  have n2: "PutJson b ?pp v \<notin> set ys2" for b v using y2(2) by (auto simp: written_keys_iff)
  have n4: "PutJson b ?pp v \<notin> set ys4" for b v using y4(2) by (auto simp: written_keys_iff)
  have mem: "PutJson b ?pp v \<in> set tr \<longleftrightarrow> ?must \<and> b = ?b \<and> v = body_permissions bdy" for b v
    using n1 n2 n4 by (auto simp: t y4(1) y3 y2(1))
  show ?thesis unfolding mem by blast
qed

theorem permissions_written_iff_witness:
  "core demo_env demo_argv demo_world demo_internal =
     Some (Inr (), demo_writes @ [DeleteObject ''bucket'' ''p/v1/..LOCK'',
                                  CloseIssue ''owner/repo'' ''12'' ''tok''])
   \<and> readParams demo_world (demo_argv ! 5) = Inr demo_body
   \<and> permissions demo_internal (project demo_body) \<notin>
           {versionMetadata demo_internal (project demo_body) (version demo_body),
            aggregated demo_internal (project demo_body) (version demo_body),
            latestPersistent demo_internal (project demo_body),
            latestAll demo_internal (project demo_body)}
   \<and> (\<exists>e. headObject demo_world (demo_argv ! 2) (permissions demo_internal (project demo_body)) = Some e
          \<and> statusCode e = Some 404)
   \<and> (\<exists>b v. PutJson b (permissions demo_internal (project demo_body)) v
               \<in> set (demo_writes @ [DeleteObject ''bucket'' ''p/v1/..LOCK'',
                                      CloseIssue ''owner/repo'' ''12'' ''tok'']))"
proof -
  have d: "permissions demo_internal (project demo_body) \<notin>
           {versionMetadata demo_internal (project demo_body) (version demo_body),
            aggregated demo_internal (project demo_body) (version demo_body),
            latestPersistent demo_internal (project demo_body),
            latestAll demo_internal (project demo_body)}"
    by (simp add: demo_internal_def demo_body_def)
  have h: "\<exists>e. headObject demo_world (demo_argv ! 2) (permissions demo_internal (project demo_body)) = Some e
          \<and> statusCode e = Some 404"
    by (simp add: demo_defs)
  from permissions_written_iff[OF demo_core demo_hyps(1) d] h demo_core demo_hyps(1) d
  show ?thesis by blast
qed

text \<open>
  Claim C7, as the code has it. When an expiry file exists whose \<open>expires_in\<close> is a number,
  and the dates convert, the first request of the run is the creation of a ticket with the
  title \<open>purge project\<close> and the body \<open>{project, version, mode: "expiry", delete_after:
  index_time + expires_in}\<close>. When the response is not a success the run fails with the
  error of the expiry job, and nothing else is requested. Otherwise the next request is the
  write of the version metadata, whose \<open>expiry_time\<close> is the date \<open>index_time +
  expires_in\<close> and whose \<open>expiry_job_id\<close> is the \<open>number\<close> that the tracker returned;
  and the run returns whenever the listing has finitely many pages.
\<close>

theorem expiry_job_created:
  assumes "readParams w (argv ! 5) = Inr bdy"
    and "headObject w (argv ! 2) (lock hp (project bdy) (version bdy)) = None"
    and "toISOString w (timestamp bdy) = Inr upload_time"
    and "toISOString w (JNum (now w)) = Inr index_iso"
    and "getJson w (argv ! 2) (expiry hp (project bdy) (version bdy)) = Inr exp_info"
    and "exp_info \<noteq> JNull"
    and "get_prop exp_info ''expires_in'' = Inr (JNum expires_in)"
    and "toISOString w (JNum (now w + expires_in)) = Inr expiry_time"
    and "postIssue w (argv ! 3) (the (GH_BOT_TOKEN env))
           (JObj [(''title'', JStr ''purge project''),
                  (''body'', JObj [(''project'', JStr (project bdy)),
                                   (''version'', JStr (version bdy)),
                                   (''mode'', JStr ''expiry''),
                                   (''delete_after'', JNum (now w + expires_in))])]) = Inr res"
  shows "(\<exists>r ys. version_meta_step w hp (argv ! 2) (argv ! 3) (the (GH_BOT_TOKEN env)) bdy (now w) []
            = (r, PostIssue (argv ! 3) (the (GH_BOT_TOKEN env))
                    (JObj [(''title'', JStr ''purge project''),
                           (''body'', JObj [(''project'', JStr (project bdy)),
                                            (''version'', JStr (version bdy)),
                                            (''mode'', JStr ''expiry''),
                                            (''delete_after'', JNum (now w + expires_in))])]) # ys))
       \<and> (\<not> ok res \<longrightarrow>
            core env argv w hp =
              Some (Inl (Error ''failed to post an expiry job''),
                    [PostIssue (argv ! 3) (the (GH_BOT_TOKEN env))
                       (JObj [(''title'', JStr ''purge project''),
                              (''body'', JObj [(''project'', JStr (project bdy)),
                                               (''version'', JStr (version bdy)),
                                               (''mode'', JStr ''expiry''),
                                               (''delete_after'', JNum (now w + expires_in))])])]))
       \<and> (\<forall>payload number.
            ok res \<and> json res = Inr payload \<and> get_prop payload ''number'' = Inr number \<longrightarrow>
            version_meta_step w hp (argv ! 2) (argv ! 3) (the (GH_BOT_TOKEN env)) bdy (now w) []
              = (Inr True,
                 [PostIssue (argv ! 3) (the (GH_BOT_TOKEN env))
                    (JObj [(''title'', JStr ''purge project''),
                           (''body'', JObj [(''project'', JStr (project bdy)),
                                            (''version'', JStr (version bdy)),
                                            (''mode'', JStr ''expiry''),
                                            (''delete_after'', JNum (now w + expires_in))])]),
                  PutJson (argv ! 2) (versionMetadata hp (project bdy) (version bdy))
                    (JObj [(''upload_time'', JStr upload_time), (''index_time'', JStr index_iso),
                           (''expiry_time'', JStr expiry_time), (''expiry_job_id'', number)])])
            \<and> (\<forall>r tr. core env argv w hp = Some (r, tr) \<longrightarrow>
                 (\<exists>ys. tr =
                    [PostIssue (argv ! 3) (the (GH_BOT_TOKEN env))
                       (JObj [(''title'', JStr ''purge project''),
                              (''body'', JObj [(''project'', JStr (project bdy)),
                                               (''version'', JStr (version bdy)),
                                               (''mode'', JStr ''expiry''),
                                               (''delete_after'', JNum (now w + expires_in))])]),
                     PutJson (argv ! 2) (versionMetadata hp (project bdy) (version bdy))
                       (JObj [(''upload_time'', JStr upload_time), (''index_time'', JStr index_iso),
                              (''expiry_time'', JStr expiry_time), (''expiry_job_id'', number)])]
                    @ ys))
            \<and> (\<forall>pages. paged w \<lparr>Bucket = argv ! 2,
                                    Prefix = project bdy @ ''/'' @ version bdy @ ''/'',
                                    ContinuationToken = None\<rparr> pages \<longrightarrow>
                 (\<exists>r tr. core env argv w hp = Some (r, tr))))"
proof -
  let ?token = "the (GH_BOT_TOKEN env)"
  let ?post = "PostIssue (argv ! 3) ?token
                 (JObj [(''title'', JStr ''purge project''),
                        (''body'', JObj [(''project'', JStr (project bdy)),
                                         (''version'', JStr (version bdy)),
                                         (''mode'', JStr ''expiry''),
                                         (''delete_after'', JNum (now w + expires_in))])])"
  let ?put = "\<lambda>number. PutJson (argv ! 2) (versionMetadata hp (project bdy) (version bdy))
                          (JObj [(''upload_time'', JStr upload_time), (''index_time'', JStr index_iso),
                                 (''expiry_time'', JStr expiry_time), (''expiry_job_id'', number)])"
  let ?step = "version_meta_step w hp (argv ! 2) (argv ! 3) ?token bdy (now w) []"
  have step: "?step =
      (if \<not> ok res then (Inl (Error ''failed to post an expiry job''), [?post])
       else (case json res of
               Inl e \<Rightarrow> (Inl e, [?post])
             | Inr payload \<Rightarrow>
                 (case get_prop payload ''number'' of
                    Inl t \<Rightarrow> (Inl (typeError w payload ''number''), [?post])
                  | Inr number \<Rightarrow> (Inr True, [?post, ?put number]))))"
    using assms(3-9)
    by (auto simp: version_meta_step_def purge_issue_def Let_def split: sum.splits type_error.splits)
  have first: "\<exists>r ys. ?step = (r, ?post # ys)"
    unfolding step by (simp split: sum.splits)
  have notok: "core env argv w hp = Some (Inl (Error ''failed to post an expiry job''), [?post])"
    if "\<not> ok res"
  proof -
    from that step have "?step = (Inl (Error ''failed to post an expiry job''), [?post])" by simp
    from run_try_meta_failed[OF assms(1,2) this] show ?thesis by (simp add: core_def)
  qed
  have meta: "?step = (Inr True, [?post, ?put number])"
    if "ok res" "json res = Inr payload" "get_prop payload ''number'' = Inr number"
    for payload number
    using that step by simp
  have pre: "\<exists>ys. tr = [?post, ?put number] @ ys"
    if "ok res" "json res = Inr payload" "get_prop payload ''number'' = Inr number"
      "core env argv w hp = Some (r, tr)" for payload number r tr
  proof -
    from that(4) have "run_try w hp ?token (argv ! 2) (argv ! 3) (argv ! 4) (argv ! 5) = Some (r, tr)"
      by (simp add: core_def)
    from run_try_meta_prefix[OF assms(1,2) meta[OF that(1-3)] this] show ?thesis .
  qed
  have total: "\<exists>r tr. core env argv w hp = Some (r, tr)"
    if "paged w \<lparr>Bucket = argv ! 2, Prefix = project bdy @ ''/'' @ version bdy @ ''/'',
                  ContinuationToken = None\<rparr> pages" for pages
    using run_try_terminates[OF assms(1) that] by (simp add: core_def)
  from first notok meta pre total show ?thesis by blast
qed

theorem expiry_job_created_witness:
  "readParams expiring_world (demo_argv ! 5) = Inr demo_body
   \<and> headObject expiring_world (demo_argv ! 2) (lock demo_internal (project demo_body) (version demo_body)) = None
   \<and> getJson expiring_world (demo_argv ! 2) (expiry demo_internal (project demo_body) (version demo_body))
       = Inr (JObj [(''expires_in'', JNum 7)])
   \<and> postIssue expiring_world (demo_argv ! 3) (the (GH_BOT_TOKEN demo_env))
           (JObj [(''title'', JStr ''purge project''),
                  (''body'', JObj [(''project'', JStr (project demo_body)),
                                   (''version'', JStr (version demo_body)),
                                   (''mode'', JStr ''expiry''),
                                   (''delete_after'', JNum (now expiring_world + 7))])])
       = Inr \<lparr>ok = True, json = Inr (JObj [(''number'', JNum 7)])\<rparr>
   \<and> version_meta_step expiring_world demo_internal (demo_argv ! 2) (demo_argv ! 3)
        (the (GH_BOT_TOKEN demo_env)) demo_body (now expiring_world) []
       = (Inr True,
          [PostIssue ''owner/repo'' ''tok''
             (JObj [(''title'', JStr ''purge project''),
                    (''body'', JObj [(''project'', JStr ''p''), (''version'', JStr ''v1''),
                                     (''mode'', JStr ''expiry''), (''delete_after'', JNum 57)])]),
           PutJson ''bucket'' ''p/v1/..revision.json''
             (JObj [(''upload_time'', JStr ''1970-01-01T00:00:00.010Z''),
                    (''index_time'', JStr ''1970-01-01T00:00:00.050Z''),
                    (''expiry_time'', JStr ''1970-01-01T00:00:00.057Z''),
                    (''expiry_job_id'', JNum 7)])])
   \<and> paged expiring_world \<lparr>Bucket = demo_argv ! 2,
                            Prefix = project demo_body @ ''/'' @ version demo_body @ ''/'',
                            ContinuationToken = None\<rparr> [demo_page1, demo_page2]
   \<and> (\<exists>r tr. core demo_env demo_argv expiring_world demo_internal = Some (r, tr))"
proof -
  let ?res = "\<lparr>ok = True, json = Inr (JObj [(''number'', JNum 7)])\<rparr>"
  have h1: "readParams expiring_world (demo_argv ! 5) = Inr demo_body"
    by (simp add: expiring_world_def demo_world_def)
  have h2: "headObject expiring_world (demo_argv ! 2)
              (lock demo_internal (project demo_body) (version demo_body)) = None"
    by (simp add: expiring_world_def demo_world_def demo_hyps)
  have h3: "toISOString expiring_world (timestamp demo_body) = Inr ''1970-01-01T00:00:00.010Z''"
    by (simp add: expiring_world_def demo_world_def demo_iso_def demo_body_def)
  have h4: "toISOString expiring_world (JNum (now expiring_world)) = Inr ''1970-01-01T00:00:00.050Z''"
    by (simp add: expiring_world_def demo_world_def demo_iso_def)
  have h5: "getJson expiring_world (demo_argv ! 2)
              (expiry demo_internal (project demo_body) (version demo_body))
       = Inr (JObj [(''expires_in'', JNum 7)])"
    by (simp add: expiring_world_def demo_internal_def demo_body_def)
  have h6: "JObj [(''expires_in'', JNum 7)] \<noteq> JNull" by simp
  have h7: "get_prop (JObj [(''expires_in'', JNum 7)]) ''expires_in'' = Inr (JNum 7)" by simp
  have h8: "toISOString expiring_world (JNum (now expiring_world + 7)) = Inr ''1970-01-01T00:00:00.057Z''"
    by (simp add: expiring_world_def demo_world_def demo_iso_def)
  have h9: "postIssue expiring_world (demo_argv ! 3) (the (GH_BOT_TOKEN demo_env))
           (JObj [(''title'', JStr ''purge project''),
                  (''body'', JObj [(''project'', JStr (project demo_body)),
                                   (''version'', JStr (version demo_body)),
                                   (''mode'', JStr ''expiry''),
                                   (''delete_after'', JNum (now expiring_world + 7))])])
       = Inr ?res"
    by (simp add: expiring_world_def demo_world_def)
  have k: "ok ?res \<and> json ?res = Inr (JObj [(''number'', JNum 7)])
    \<and> get_prop (JObj [(''number'', JNum 7)]) ''number'' = Inr (JNum 7)" by simp
  have p: "paged expiring_world \<lparr>Bucket = demo_argv ! 2,
                            Prefix = project demo_body @ ''/'' @ version demo_body @ ''/'',
                            ContinuationToken = None\<rparr> [demo_page1, demo_page2]"
    using demo_paged[of expiring_world]
    by (simp add: expiring_world_def demo_body_def demo_argv_def)
  have n: "now expiring_world = 50" by (simp add: expiring_world_def demo_world_def)
  note T = expiry_job_created[OF h1 h2 h3 h4 h5 h6 h7 h8 h9]
  from T k
  have a: "version_meta_step expiring_world demo_internal (demo_argv ! 2) (demo_argv ! 3)
        (the (GH_BOT_TOKEN demo_env)) demo_body (now expiring_world) []
       = (Inr True,
          [PostIssue ''owner/repo'' ''tok''
             (JObj [(''title'', JStr ''purge project''),
                    (''body'', JObj [(''project'', JStr ''p''), (''version'', JStr ''v1''),
                                     (''mode'', JStr ''expiry''), (''delete_after'', JNum 57)])]),
           PutJson ''bucket'' ''p/v1/..revision.json''
             (JObj [(''upload_time'', JStr ''1970-01-01T00:00:00.010Z''),
                    (''index_time'', JStr ''1970-01-01T00:00:00.050Z''),
                    (''expiry_time'', JStr ''1970-01-01T00:00:00.057Z''),
                    (''expiry_job_id'', JNum 7)])])"
    by (simp add: demo_hyps n demo_internal_def demo_body_def)
  from T k p
  have b: "\<exists>r tr. core demo_env demo_argv expiring_world demo_internal = Some (r, tr)"
    by blast
  from h1 h2 h5 h9 a p b show ?thesis by blast
qed

text \<open>
  The claim C7 as stated, that a ticket is created in every run in which an expiry file
  exists, fails for an expiry file without \<open>expires_in\<close>: the date is invalid, the run
  fails before the ticket is requested, and its only request is the comment.
\<close>

theorem bare_expiry_no_ticket_counterexample:
  "getJson bare_expiry_world ''bucket'' ''p/v1/..expiry.json'' = Inr (JObj [])
   \<and> main demo_env demo_argv bare_expiry_world demo_internal =
       Some \<lparr>exitCode = 0, uncaught = None,
             trace = [PostComment ''owner/repo'' ''12'' ''tok'' ''Invalid time value'']\<rparr>"
proof -
  have p: "postComment bare_expiry_world r i t m = None" for r i t m
    by (simp add: bare_expiry_world_def demo_world_def)
  show ?thesis
    by (simp add: main_configured[OF demo_configured] bare_expiry_core p comment_for_def demo_hyps
        Error_def)
      (simp add: bare_expiry_world_def)
qed

text \<open>
  Claim C8. In every run, a request to delete the lock comes after all the writes of the
  run have been issued and only when every one of them has completed: the requests before
  it are the scheduled writes and the expiry ticket, no write follows it, and every write
  of the run resolved. The closing of the ticket is requested only after the deletion of
  the lock has resolved, and nothing follows it. A successful run ends with the deletion
  of the lock and the closing of the ticket, in this order; a run in which a write is
  rejected requests neither.
\<close>

theorem commit_before_unlock_before_close:
  assumes "core env argv w hp = Some (r, tr)"
  shows "(\<forall>b k. DeleteObject b k \<in> set tr \<longrightarrow>
           (\<exists>bdy tr0 rest. readParams w (argv ! 5) = Inr bdy
              \<and> b = argv ! 2 \<and> k = lock hp (project bdy) (version bdy)
              \<and> tr = tr0 @ DeleteObject b k # rest
              \<and> list_all scheduling tr0
              \<and> (\<forall>b' k' v. PutJson b' k' v \<in> set tr \<longrightarrow>
                    PutJson b' k' v \<in> set tr0 \<and> putJson w b' k' v = None)
              \<and> (rest = []
                  \<or> rest = [CloseIssue (argv ! 3) (argv ! 4) (the (GH_BOT_TOKEN env))]
                     \<and> deleteObject w b k = None)))
       \<and> (\<forall>r' i t. CloseIssue r' i t \<in> set tr \<longrightarrow> (\<exists>b k. DeleteObject b k \<in> set tr))
       \<and> (r = Inr () \<longrightarrow>
            (\<exists>bdy tr0. readParams w (argv ! 5) = Inr bdy
               \<and> tr = tr0 @ [DeleteObject (argv ! 2) (lock hp (project bdy) (version bdy)),
                             CloseIssue (argv ! 3) (argv ! 4) (the (GH_BOT_TOKEN env))]
               \<and> deleteObject w (argv ! 2) (lock hp (project bdy) (version bdy)) = None
               \<and> closeIssue w (argv ! 3) (argv ! 4) (the (GH_BOT_TOKEN env)) = None))
       \<and> ((\<exists>b k v. PutJson b k v \<in> set tr \<and> putJson w b k v \<noteq> None) \<longrightarrow>
            (\<forall>b k. DeleteObject b k \<notin> set tr) \<and> (\<forall>r' i t. CloseIssue r' i t \<notin> set tr))"
proof -
  let ?token = "the (GH_BOT_TOKEN env)" and ?b = "argv ! 2"
  let ?close = "CloseIssue (argv ! 3) (argv ! 4) ?token"
  from assms have rt: "run_try w hp ?token ?b (argv ! 3) (argv ! 4) (argv ! 5) = Some (r, tr)"
    by (simp add: core_def)
  have sch: "DeleteObject b k \<notin> set trs \<and> CloseIssue r' i t \<notin> set trs"
    if "list_all scheduling trs" for trs b k r' i t
    using that by (auto simp: list_all_iff)
  from run_try_cases[OF rt]
  consider (early) "tr = []" "isl r"
    | (sched) bdy e where "schedule w hp ?b (argv ! 3) ?token bdy = Some (Inl e, tr)" "r = Inl e"
    | (fin) bdy tr0 where "readParams w (argv ! 5) = Inr bdy"
        "schedule w hp ?b (argv ! 3) ?token bdy = Some (Inr (), tr0)"
        "finish w ?b (argv ! 3) (argv ! 4) ?token (lock hp (project bdy) (version bdy)) tr0 = (r, tr)"
    by auto
  then show ?thesis
  proof cases
    case early
    then show ?thesis by auto
  next
    case sched
    from sch[OF schedule_events[OF sched(1)]] sched(2) show ?thesis by simp
  next
    case fin
    let ?del = "DeleteObject ?b (lock hp (project bdy) (version bdy))"
    note s0 = schedule_events[OF fin(2)]
    note n0 = sch[OF s0]
    from finish_cases[OF fin(3)]
    consider (await) e where "await_writes w tr0 = Some e" "r = Inl e" "tr = tr0"
      | (del) e where "await_writes w tr0 = None"
          "deleteObject w ?b (lock hp (project bdy) (version bdy)) = Some e" "r = Inl e"
          "tr = tr0 @ [?del]"
      | (close) "await_writes w tr0 = None"
          "deleteObject w ?b (lock hp (project bdy) (version bdy)) = None"
          "tr = tr0 @ [?del, ?close]"
          "(\<exists>e. closeIssue w (argv ! 3) (argv ! 4) ?token = Some e \<and> r = Inl e)
           \<or> closeIssue w (argv ! 3) (argv ! 4) ?token = None \<and> r = Inr ()"
      by (elim disjE exE conjE) auto
    then show ?thesis
    proof cases
      case await
      from await(3) n0 await(2) show ?thesis by simp
    next
      case del
      from del(1) have p: "\<forall>b' k' v. PutJson b' k' v \<in> set tr0 \<longrightarrow> putJson w b' k' v = None"
        by (simp add: await_writes_None)
      have 1: "\<forall>b k. DeleteObject b k \<in> set tr \<longrightarrow>
           (\<exists>bdy tr0 rest. readParams w (argv ! 5) = Inr bdy
              \<and> b = argv ! 2 \<and> k = lock hp (project bdy) (version bdy)
              \<and> tr = tr0 @ DeleteObject b k # rest
              \<and> list_all scheduling tr0
              \<and> (\<forall>b' k' v. PutJson b' k' v \<in> set tr \<longrightarrow>
                    PutJson b' k' v \<in> set tr0 \<and> putJson w b' k' v = None)
              \<and> (rest = [] \<or> rest = [?close] \<and> deleteObject w b k = None))"
      proof (intro allI impI)
        fix b k assume "DeleteObject b k \<in> set tr"
        with del(4) n0 have bk: "b = ?b" "k = lock hp (project bdy) (version bdy)" by auto
        from p del(4) have "\<forall>b' k' v. PutJson b' k' v \<in> set tr \<longrightarrow>
                    PutJson b' k' v \<in> set tr0 \<and> putJson w b' k' v = None" by auto
        with fin(1) bk del(4) s0
        show "\<exists>bdy tr0 rest. readParams w (argv ! 5) = Inr bdy
              \<and> b = argv ! 2 \<and> k = lock hp (project bdy) (version bdy)
              \<and> tr = tr0 @ DeleteObject b k # rest
              \<and> list_all scheduling tr0
              \<and> (\<forall>b' k' v. PutJson b' k' v \<in> set tr \<longrightarrow>
                    PutJson b' k' v \<in> set tr0 \<and> putJson w b' k' v = None)
              \<and> (rest = [] \<or> rest = [?close] \<and> deleteObject w b k = None)"
          by blast
      qed
      have 2: "\<forall>r' i t. CloseIssue r' i t \<in> set tr \<longrightarrow> (\<exists>b k. DeleteObject b k \<in> set tr)"
        using del(4) by auto
      have 4: "(\<exists>b k v. PutJson b k v \<in> set tr \<and> putJson w b k v \<noteq> None) \<longrightarrow>
            (\<forall>b k. DeleteObject b k \<notin> set tr) \<and> (\<forall>r' i t. CloseIssue r' i t \<notin> set tr)"
        using p del(4) by auto
      from 1 2 4 del(3) show ?thesis by simp
    next
      case close
      from close(1) have p: "\<forall>b' k' v. PutJson b' k' v \<in> set tr0 \<longrightarrow> putJson w b' k' v = None"
        by (simp add: await_writes_None)
      have 1: "\<forall>b k. DeleteObject b k \<in> set tr \<longrightarrow>
           (\<exists>bdy tr0 rest. readParams w (argv ! 5) = Inr bdy
              \<and> b = argv ! 2 \<and> k = lock hp (project bdy) (version bdy)
              \<and> tr = tr0 @ DeleteObject b k # rest
              \<and> list_all scheduling tr0
              \<and> (\<forall>b' k' v. PutJson b' k' v \<in> set tr \<longrightarrow>
                    PutJson b' k' v \<in> set tr0 \<and> putJson w b' k' v = None)
              \<and> (rest = [] \<or> rest = [?close] \<and> deleteObject w b k = None))"
      proof (intro allI impI)
        fix b k assume "DeleteObject b k \<in> set tr"
        with close(3) n0 have bk: "b = ?b" "k = lock hp (project bdy) (version bdy)" by auto
        from p close(3) have "\<forall>b' k' v. PutJson b' k' v \<in> set tr \<longrightarrow>
                    PutJson b' k' v \<in> set tr0 \<and> putJson w b' k' v = None" by auto
        moreover have "tr = tr0 @ DeleteObject b k # [?close]" using close(3) bk by simp
        ultimately
        show "\<exists>bdy tr0 rest. readParams w (argv ! 5) = Inr bdy
              \<and> b = argv ! 2 \<and> k = lock hp (project bdy) (version bdy)
              \<and> tr = tr0 @ DeleteObject b k # rest
              \<and> list_all scheduling tr0
              \<and> (\<forall>b' k' v. PutJson b' k' v \<in> set tr \<longrightarrow>
                    PutJson b' k' v \<in> set tr0 \<and> putJson w b' k' v = None)
              \<and> (rest = [] \<or> rest = [?close] \<and> deleteObject w b k = None)"
          using fin(1) bk s0 close(2) by blast
      qed
      have 2: "\<forall>r' i t. CloseIssue r' i t \<in> set tr \<longrightarrow> (\<exists>b k. DeleteObject b k \<in> set tr)"
        using close(3) by auto
      have 3: "r = Inr () \<longrightarrow>
            (\<exists>bdy tr0. readParams w (argv ! 5) = Inr bdy
               \<and> tr = tr0 @ [DeleteObject (argv ! 2) (lock hp (project bdy) (version bdy)), ?close]
               \<and> deleteObject w (argv ! 2) (lock hp (project bdy) (version bdy)) = None
               \<and> closeIssue w (argv ! 3) (argv ! 4) ?token = None)"
        using fin(1) close(2,3,4) by auto
      have 4: "(\<exists>b k v. PutJson b k v \<in> set tr \<and> putJson w b k v \<noteq> None) \<longrightarrow>
            (\<forall>b k. DeleteObject b k \<notin> set tr) \<and> (\<forall>r' i t. CloseIssue r' i t \<notin> set tr)"
        using p close(3) by auto
      from 1 2 3 4 show ?thesis by blast
    qed
  qed
qed

theorem commit_before_unlock_before_close_witness:
  "core demo_env demo_argv demo_world demo_internal =
     Some (Inr (), demo_writes @ [DeleteObject ''bucket'' ''p/v1/..LOCK'',
                                  CloseIssue ''owner/repo'' ''12'' ''tok''])
   \<and> (\<exists>bdy tr0. readParams demo_world (demo_argv ! 5) = Inr bdy
       \<and> demo_writes @ [DeleteObject ''bucket'' ''p/v1/..LOCK'', CloseIssue ''owner/repo'' ''12'' ''tok'']
           = tr0 @ [DeleteObject (demo_argv ! 2) (lock demo_internal (project bdy) (version bdy)),
                    CloseIssue (demo_argv ! 3) (demo_argv ! 4) (the (GH_BOT_TOKEN demo_env))]
       \<and> deleteObject demo_world (demo_argv ! 2) (lock demo_internal (project bdy) (version bdy)) = None)
   \<and> core demo_env demo_argv putfail_world demo_internal =
       Some (Inl (Error ''put failed''), demo_writes)
   \<and> PutJson ''bucket'' ''p/v1/..aggregated.json'' (JArr [JObj [(''x'', JNum 1)], JStr ''c''])
        \<in> set demo_writes
   \<and> putJson putfail_world ''bucket'' ''p/v1/..aggregated.json''
        (JArr [JObj [(''x'', JNum 1)], JStr ''c'']) \<noteq> None
   \<and> DeleteObject ''bucket'' ''p/v1/..LOCK'' \<notin> set demo_writes"
proof -
  from commit_before_unlock_before_close[OF demo_core]
  have a: "\<exists>bdy tr0. readParams demo_world (demo_argv ! 5) = Inr bdy
       \<and> demo_writes @ [DeleteObject ''bucket'' ''p/v1/..LOCK'', CloseIssue ''owner/repo'' ''12'' ''tok'']
           = tr0 @ [DeleteObject (demo_argv ! 2) (lock demo_internal (project bdy) (version bdy)),
                    CloseIssue (demo_argv ! 3) (demo_argv ! 4) (the (GH_BOT_TOKEN demo_env))]
       \<and> deleteObject demo_world (demo_argv ! 2) (lock demo_internal (project bdy) (version bdy)) = None"
    by blast
  have m: "PutJson ''bucket'' ''p/v1/..aggregated.json'' (JArr [JObj [(''x'', JNum 1)], JStr ''c''])
        \<in> set demo_writes"
    by (simp add: demo_writes_def)
  have f: "putJson putfail_world ''bucket'' ''p/v1/..aggregated.json''
        (JArr [JObj [(''x'', JNum 1)], JStr ''c'']) \<noteq> None"
    by (simp add: putfail_world_def)
  from commit_before_unlock_before_close[OF putfail_core] m f
  have b: "DeleteObject ''bucket'' ''p/v1/..LOCK'' \<notin> set demo_writes"
    by blast
  from demo_core a putfail_core m f b show ?thesis by blast
qed




text \<open>
  Claim C10. When the try block fails and the posting of the comment throws, line 224 is
  not reached and the exit code stays 1; an exit code 0 means that the try block succeeded,
  or that it failed and the comment was posted without an exception.
\<close>

theorem comment_post_throws_exit_code:
  assumes "configured env argv"
  shows "(\<forall>e tr e'. core env argv w hp = Some (Inl e, tr) \<and>
            postComment w (argv ! 3) (argv ! 4) (the (GH_BOT_TOKEN env)) (message e) = Some e' \<longrightarrow>
            main env argv w hp =
              Some \<lparr>exitCode = 1, uncaught = Some e', trace = tr @ [comment_for env argv e]\<rparr>)
       \<and> (\<forall>r. main env argv w hp = Some r \<and> exitCode r = 0 \<longrightarrow>
            uncaught r = None \<and>
            (core env argv w hp = Some (Inr (), trace r)
             \<or> (\<exists>e tr. core env argv w hp = Some (Inl e, tr)
                   \<and> postComment w (argv ! 3) (argv ! 4) (the (GH_BOT_TOKEN env)) (message e) = None
                   \<and> trace r = tr @ [comment_for env argv e])))"
  unfolding main_configured[OF assms]
  by (auto split: option.splits sum.splits prod.splits)

theorem comment_post_throws_exit_code_witness:
  "configured demo_env demo_argv
   \<and> core demo_env demo_argv unparsable_world demo_internal = Some (Inl (Error ''Unexpected token''), [])
   \<and> postComment unparsable_world (demo_argv ! 3) (demo_argv ! 4) (the (GH_BOT_TOKEN demo_env))
        (message (Error ''Unexpected token'')) = Some (Error ''fetch failed'')
   \<and> main demo_env demo_argv unparsable_world demo_internal =
       Some \<lparr>exitCode = 1, uncaught = Some (Error ''fetch failed''),
             trace = [] @ [comment_for demo_env demo_argv (Error ''Unexpected token'')]\<rparr>"
proof -
  have c: "core demo_env demo_argv unparsable_world demo_internal =
             Some (Inl (Error ''Unexpected token''), [])"
    by (simp add: core_def run_try_def unparsable_world_def)
  have p: "postComment unparsable_world (demo_argv ! 3) (demo_argv ! 4) (the (GH_BOT_TOKEN demo_env))
        (message (Error ''Unexpected token'')) = Some (Error ''fetch failed'')"
    by (simp add: unparsable_world_def)
  from comment_post_throws_exit_code[OF demo_configured, of unparsable_world demo_internal] c p
  have "main demo_env demo_argv unparsable_world demo_internal =
       Some \<lparr>exitCode = 1, uncaught = Some (Error ''fetch failed''),
             trace = [] @ [comment_for demo_env demo_argv (Error ''Unexpected token'')]\<rparr>"
    by blast
  with demo_configured c p show ?thesis by blast
qed

end
